theory Spec2Isabelle
  imports Main "HOL-Library.AList" "HOL-Library.Word"
begin

unbundle bit_operations_syntax

section \<open>The parsed XMP document\<close>

text \<open>
  The program reads Camera Raw settings out of the XMP packet of a TIFF file.  It is one
  Python module, \<^verbatim>\<open>analyze.py\<close>, on top of two libraries: \<^verbatim>\<open>tifffile\<close> opens the
  container and \<^verbatim>\<open>xml.etree.ElementTree\<close> parses the packet.  The libraries are modelled
  by what their documentation says the calls used here return; the module itself is
  translated function by function.

  An element of the parsed tree has a tag in Clark notation (\<^verbatim>\<open>{uri}local\<close>), the text
  that follows its start tag (\<^verbatim>\<open>None\<close> when there is none) and its children in document
  order.  The program never reads attributes or tails, so they are left out.
\<close>

datatype element =
  Element (tag: string) (elem_text: "string option") (children: "element list")

text \<open>\<^verbatim>\<open>Element.iter()\<close>: the element and everything below it, in document order.\<close>

fun iter :: "element \<Rightarrow> element list" where
  "iter (Element t x cs) = Element t x cs # concat (map iter cs)"

text \<open>
  The path \<^verbatim>\<open>.//tag\<close> of \<^verbatim>\<open>findall\<close>: every element below the context element with
  that tag, in document order.  ElementPath runs \<^verbatim>\<open>iter(tag)\<close> on the context element
  and skips the context element itself.
\<close>

definition descendants :: "element \<Rightarrow> element list" where
  "descendants e = concat (map iter (children e))"

definition findall_descendant :: "string \<Rightarrow> element \<Rightarrow> element list" where
  "findall_descendant tg e = filter (\<lambda>d. tag d = tg) (descendants e)"

text \<open>\<^verbatim>\<open>find(tag)\<close>: the first child with that tag.\<close>

definition find_child :: "string \<Rightarrow> element \<Rightarrow> element option" where
  "find_child tg e = List.find (\<lambda>c. tag c = tg) (children e)"

text \<open>
  \<^verbatim>\<open>findtext(tag, default=None)\<close>: the text of the first child with that tag, the
  default when there is no such child.  The library returns the empty string, not
  \<^verbatim>\<open>None\<close>, for a child that is found and has no text.
\<close>

definition findtext :: "string \<Rightarrow> element \<Rightarrow> string option" where
  "findtext tg e =
     (case find_child tg e of
        None \<Rightarrow> None
      | Some c \<Rightarrow> Some (case elem_text c of None \<Rightarrow> [] | Some s \<Rightarrow> s))"

text \<open>The namespace map \<^verbatim>\<open>ns\<close> and the expansion of a prefixed name of a path.\<close>

definition rdf_uri :: string where
  "rdf_uri = ''http://www.w3.org/1999/02/22-rdf-syntax-ns#''"

definition crs_uri :: string where
  "crs_uri = ''http://ns.adobe.com/camera-raw-settings/1.0/''"

definition rdf :: "string \<Rightarrow> string" where
  "rdf local = ''{'' @ rdf_uri @ ''}'' @ local"

definition crs :: "string \<Rightarrow> string" where
  "crs local = ''{'' @ crs_uri @ ''}'' @ local"

section \<open>The editing parameters\<close>

text \<open>
  A value of the result dictionary is a string, or the list of strings of the tone curve.
  The dictionary is an association list in insertion order: storing under a key that is
  there replaces the value where it stands, storing under a new key appends it, which is
  \<^const>\<open>AList.update\<close>.
\<close>

datatype param_value = Scalar string | Sequence "string list"

type_synonym editing_params = "(string \<times> param_value) list"

definition keys_to_extract :: "string list" where
  "keys_to_extract = [
     ''Version'', ''ProcessVersion'', ''WhiteBalance'',
     ''Temperature'', ''Tint'', ''Exposure'',
     ''Shadows'', ''Brightness'', ''Contrast'',
     ''Saturation'', ''Sharpness'', ''LuminanceSmoothing'',
     ''ColorNoiseReduction'', ''ChromaticAberrationR'', ''ChromaticAberrationB'',
     ''VignetteAmount'', ''ShadowTint'', ''RedHue'',
     ''RedSaturation'', ''GreenHue'', ''GreenSaturation'',
     ''BlueHue'', ''BlueSaturation'', ''FillLight'',
     ''Vibrance'', ''HighlightRecovery'', ''Clarity'',
     ''Defringe'', ''HueAdjustmentRed'', ''HueAdjustmentOrange'',
     ''HueAdjustmentYellow'', ''HueAdjustmentGreen'', ''HueAdjustmentAqua'',
     ''HueAdjustmentBlue'', ''HueAdjustmentPurple'', ''HueAdjustmentMagenta'',
     ''SaturationAdjustmentRed'', ''SaturationAdjustmentOrange'', ''SaturationAdjustmentYellow'',
     ''SaturationAdjustmentGreen'', ''SaturationAdjustmentAqua'', ''SaturationAdjustmentBlue'',
     ''SaturationAdjustmentPurple'', ''SaturationAdjustmentMagenta'', ''LuminanceAdjustmentRed'',
     ''LuminanceAdjustmentOrange'', ''LuminanceAdjustmentYellow'', ''LuminanceAdjustmentGreen'',
     ''LuminanceAdjustmentAqua'', ''LuminanceAdjustmentBlue'', ''LuminanceAdjustmentPurple'',
     ''LuminanceAdjustmentMagenta'', ''SplitToningShadowHue'', ''SplitToningShadowSaturation'',
     ''SplitToningHighlightHue'', ''SplitToningHighlightSaturation'', ''SplitToningBalance'',
     ''ParametricShadows'', ''ParametricDarks'', ''ParametricLights'',
     ''ParametricHighlights'', ''ParametricShadowSplit'', ''ParametricMidtoneSplit'',
     ''ParametricHighlightSplit'', ''SharpenRadius'', ''SharpenDetail'',
     ''SharpenEdgeMasking'', ''PostCropVignetteAmount'', ''GrainAmount'',
     ''LensProfileEnable'', ''LensManualDistortionAmount'', ''PerspectiveVertical'',
     ''PerspectiveHorizontal'', ''PerspectiveRotate'', ''PerspectiveScale'',
     ''ConvertToGrayscale'', ''ToneCurveName'', ''CameraProfile'',
     ''LensProfileSetup'', ''HasSettings'', ''HasCrop'',
     ''AlreadyApplied'']"

text \<open>The inner loop over \<^const>\<open>keys_to_extract\<close> for one \<^verbatim>\<open>rdf:Description\<close>.\<close>

fun extract_keys :: "element \<Rightarrow> string list \<Rightarrow> editing_params \<Rightarrow> editing_params" where
  "extract_keys desc [] editing_params = editing_params"
| "extract_keys desc (key # keys) editing_params =
     extract_keys desc keys
       (case findtext (crs key) desc of
          None \<Rightarrow> editing_params
        | Some val \<Rightarrow> AList.update key (Scalar val) editing_params)"

text \<open>The special handling of \<^verbatim>\<open>crs:ToneCurve\<close> for one \<^verbatim>\<open>rdf:Description\<close>.\<close>

definition tone_curve_values :: "element \<Rightarrow> string list" where
  "tone_curve_values tone_curve_elem =
     List.map_filter elem_text (findall_descendant (rdf ''li'') tone_curve_elem)"

definition extract_tone_curve :: "element \<Rightarrow> editing_params \<Rightarrow> editing_params" where
  "extract_tone_curve desc editing_params =
     (case find_child (crs ''ToneCurve'') desc of
        None \<Rightarrow> editing_params
      | Some tone_curve_elem \<Rightarrow>
          (if tone_curve_values tone_curve_elem \<noteq> []
           then AList.update ''ToneCurve'' (Sequence (tone_curve_values tone_curve_elem))
                  editing_params
           else editing_params))"

text \<open>The body of the outer loop, and the loop over the descriptions found.\<close>

definition process_description :: "element \<Rightarrow> editing_params \<Rightarrow> editing_params" where
  "process_description desc editing_params =
     extract_tone_curve desc (extract_keys desc keys_to_extract editing_params)"

definition descriptions :: "element \<Rightarrow> element list" where
  "descriptions root = findall_descendant (rdf ''Description'') root"

definition extract_params :: "element \<Rightarrow> editing_params" where
  "extract_params root = fold process_description (descriptions root) []"

section \<open>Decoding the payload\<close>

text \<open>
  \<^verbatim>\<open>xmp_bytes.decode('utf-8', errors='replace')\<close>.  The codec reads the bytes from left to
  right.  A well-formed sequence gives its code point.  A byte that cannot start a
  sequence, a sequence cut short by a byte that cannot continue it, and a sequence cut
  short by the end of the data are each one malformed stretch; after a stretch ended by
  a byte, decoding goes on at that byte.  With \<^verbatim>\<open>errors='replace'\<close> every malformed
  stretch becomes U+FFFD; with the default \<^verbatim>\<open>errors='strict'\<close> the first one raises
  \<^verbatim>\<open>UnicodeDecodeError\<close>.

  The state between two bytes is either \<open>Start\<close> or \<open>Pending n cp lo hi\<close>: \<open>n\<close> more
  continuation bytes are needed, \<open>cp\<close> holds the bits read so far and the next byte must
  lie in \<open>lo .. hi\<close> (the bounds that exclude overlong forms, surrogates and code points
  above U+10FFFF).
\<close>

type_synonym byte = "8 word"

datatype decoder_state = Start | Pending nat nat byte byte

datatype decoded = CodePoint nat | Malformed

definition lead :: "byte \<Rightarrow> decoded list \<times> decoder_state" where
  "lead b =
     (if b < 0x80 then ([CodePoint (unat b)], Start)
      else if 0xC2 \<le> b \<and> b \<le> 0xDF then
        ([], Pending 1 (unat (b AND 0x1F)) 0x80 0xBF)
      else if 0xE0 \<le> b \<and> b \<le> 0xEF then
        ([], Pending 2 (unat (b AND 0x0F))
               (if b = 0xE0 then 0xA0 else 0x80) (if b = 0xED then 0x9F else 0xBF))
      else if 0xF0 \<le> b \<and> b \<le> 0xF4 then
        ([], Pending 3 (unat (b AND 0x07))
               (if b = 0xF0 then 0x90 else 0x80) (if b = 0xF4 then 0x8F else 0xBF))
      else ([Malformed], Start))"

fun utf8_events :: "decoder_state \<Rightarrow> byte list \<Rightarrow> decoded list" where
  "utf8_events Start [] = []"
| "utf8_events (Pending n cp lo hi) [] = [Malformed]"
| "utf8_events Start (b # bs) = (case lead b of (out, st) \<Rightarrow> out @ utf8_events st bs)"
| "utf8_events (Pending n cp lo hi) (b # bs) =
     (if lo \<le> b \<and> b \<le> hi then
        (if n = 1 then CodePoint (cp * 64 + unat (b AND 0x3F)) # utf8_events Start bs
         else utf8_events (Pending (n - 1) (cp * 64 + unat (b AND 0x3F)) 0x80 0xBF) bs)
      else Malformed # (case lead b of (out, st) \<Rightarrow> out @ utf8_events st bs))"

definition replacement_character :: nat where
  "replacement_character = 0xFFFD"

fun replace_malformed :: "decoded \<Rightarrow> nat" where
  "replace_malformed (CodePoint c) = c"
| "replace_malformed Malformed = replacement_character"

definition utf8_decode_replace :: "byte list \<Rightarrow> nat list" where
  "utf8_decode_replace bs = map replace_malformed (utf8_events Start bs)"

text \<open>The strict codec, \<open>None\<close> for the \<^verbatim>\<open>UnicodeDecodeError\<close> at the first malformed stretch.\<close>

fun strict_code_points :: "decoded list \<Rightarrow> nat list option" where
  "strict_code_points [] = Some []"
| "strict_code_points (CodePoint c # es) = map_option ((#) c) (strict_code_points es)"
| "strict_code_points (Malformed # es) = None"

definition utf8_decode_strict :: "byte list \<Rightarrow> nat list option" where
  "utf8_decode_strict bs = strict_code_points (utf8_events Start bs)"

text \<open>
  A Python string holds Unicode scalar values: code points up to U+10FFFF that are not
  surrogates.  \<open>state_ok\<close> is what holds of the decoder between two bytes: the code
  points that a pending sequence can still give, from the least to the greatest, are
  scalar values.
\<close>

definition scalar_value :: "nat \<Rightarrow> bool" where
  "scalar_value c \<longleftrightarrow> c \<le> 0x10FFFF \<and> \<not> (0xD800 \<le> c \<and> c \<le> 0xDFFF)"

fun decoded_ok :: "decoded \<Rightarrow> bool" where
  "decoded_ok (CodePoint c) = scalar_value c"
| "decoded_ok Malformed = True"

fun state_ok :: "decoder_state \<Rightarrow> bool" where
  "state_ok Start = True"
| "state_ok (Pending n cp lo hi) =
     (1 \<le> n \<and> n \<le> 3 \<and> 0x80 \<le> lo \<and> hi \<le> 0xBF \<and>
      (cp * 64 + (unat hi - 128) + 1) * 64 ^ (n - 1) \<le> 0x110000 \<and>
      ((cp * 64 + (unat hi - 128) + 1) * 64 ^ (n - 1) \<le> 0xD800 \<or>
       0xE000 \<le> (cp * 64 + (unat lo - 128)) * 64 ^ (n - 1)))"

section \<open>parse_xmp\<close>

text \<open>
  Exceptions are values.  \<^verbatim>\<open>ET.ParseError\<close> is the one the program names; every other
  subclass of \<^verbatim>\<open>Exception\<close> is \<open>OtherException\<close>.  Both carry the text \<^verbatim>\<open>str(e)\<close>.
  A function that prints returns the lines it printed with its result.

  \<^verbatim>\<open>ET.fromstring\<close> is a parameter: a function from the decoded text to a tree or to the
  exception it raises.
\<close>

datatype py_exception = ParseError string | OtherException string

fun exception_str :: "py_exception \<Rightarrow> string" where
  "exception_str (ParseError msg) = msg"
| "exception_str (OtherException msg) = msg"

type_synonym xml_parser = "nat list \<Rightarrow> py_exception + element"

definition parse_xmp ::
  "xml_parser \<Rightarrow> byte list \<Rightarrow> py_exception + (string list \<times> editing_params)" where
  "parse_xmp fromstring xmp_bytes =
     (case fromstring (utf8_decode_replace xmp_bytes) of
        Inl (ParseError e) \<Rightarrow> Inr ([''Error parsing XMP metadata: '' @ e], [])
      | Inl (OtherException e) \<Rightarrow> Inl (OtherException e)
      | Inr root \<Rightarrow> Inr ([], extract_params root))"

section \<open>extract_editing_metadata\<close>

text \<open>
  A TIFF tag has a name and a value; a page is the list \<^verbatim>\<open>tags.values()\<close>.  Of an opened
  file the program reads \<^verbatim>\<open>tif.pages[0]\<close> only, which is a page or the exception the
  library raises for it.  \<^verbatim>\<open>tifffile.TiffFile\<close> is a parameter: a function from the path
  to an opened file or to the exception it raises.
\<close>

record tiff_tag =
  tag_name :: string
  tag_value :: "byte list"

type_synonym tiff_page = "tiff_tag list"

datatype tiff_file = TiffFile (first_page: "py_exception + tiff_page")

type_synonym tiff_opener = "string \<Rightarrow> py_exception + tiff_file"

text \<open>The loop over the tags: the value of the first tag named \<^verbatim>\<open>XMP\<close>.\<close>

definition find_xmp :: "tiff_page \<Rightarrow> byte list option" where
  "find_xmp tags = map_option tag_value (List.find (\<lambda>t. tag_name t = ''XMP'') tags)"

text \<open>The body of the \<^verbatim>\<open>try\<close>: what was printed, and the result or the exception raised.\<close>

definition extract_body ::
  "tiff_opener \<Rightarrow> xml_parser \<Rightarrow> string \<Rightarrow>
     string list \<times> (py_exception + editing_params option)" where
  "extract_body open_tiff fromstring file_path =
     (case open_tiff file_path of
        Inl e \<Rightarrow> ([], Inl e)
      | Inr tif \<Rightarrow>
          (case first_page tif of
             Inl e \<Rightarrow> ([], Inl e)
           | Inr page \<Rightarrow>
               (case find_xmp page of
                  None \<Rightarrow> ([''No XMP metadata found in the file.''], Inr None)
                | Some xmp_data \<Rightarrow>
                    (case parse_xmp fromstring xmp_data of
                       Inl e \<Rightarrow> ([], Inl e)
                     | Inr (out, editing_params) \<Rightarrow> (out, Inr (Some editing_params))))))"

text \<open>The \<^verbatim>\<open>except Exception\<close> around it.\<close>

definition extract_editing_metadata ::
  "tiff_opener \<Rightarrow> xml_parser \<Rightarrow> string \<Rightarrow> string list \<times> editing_params option" where
  "extract_editing_metadata open_tiff fromstring file_path =
     (case extract_body open_tiff fromstring file_path of
        (out, Inl e) \<Rightarrow>
          (out @ [''Error extracting editing metadata: '' @ exception_str e], None)
      | (out, Inr editing_params) \<Rightarrow> (out, editing_params))"

section \<open>The entry point\<close>

text \<open>
  \<^verbatim>\<open>f"{key}: {value}"\<close> formats a string as it is and a list as Python prints lists:
  the \<^verbatim>\<open>repr\<close> of each item, separated by a comma and a space, in brackets.  The
  \<^verbatim>\<open>repr\<close> of a string is a parameter.
\<close>

fun join :: "string \<Rightarrow> string list \<Rightarrow> string" where
  "join sep [] = []"
| "join sep [x] = x"
| "join sep (x # y # ys) = x @ sep @ join sep (y # ys)"

fun str_value :: "(string \<Rightarrow> string) \<Rightarrow> param_value \<Rightarrow> string" where
  "str_value repr (Scalar s) = s"
| "str_value repr (Sequence xs) = ''['' @ join '', '' (map repr xs) @ '']''"

definition file_path :: string where
  "file_path = ''images/a0001-jmac_DSC1459.tif''"

text \<open>
  The \<^verbatim>\<open>if editing_metadata:\<close> of the entry point tests the truth value of the result:
  \<^verbatim>\<open>None\<close> and the empty dictionary are both false.
\<close>

fun report :: "(string \<Rightarrow> string) \<Rightarrow> editing_params option \<Rightarrow> string list" where
  "report repr None = [''No editing metadata could be extracted.'']"
| "report repr (Some []) = [''No editing metadata could be extracted.'']"
| "report repr (Some (item # items)) =
     ''Extracted Editing Metadata:'' #
     map (\<lambda>(key, v). key @ '': '' @ str_value repr v) (item # items)"

definition main_program ::
  "tiff_opener \<Rightarrow> xml_parser \<Rightarrow> (string \<Rightarrow> string) \<Rightarrow> string list" where
  "main_program open_tiff fromstring repr =
     (case extract_editing_metadata open_tiff fromstring file_path of
        (out, editing_metadata) \<Rightarrow> out @ report repr editing_metadata)"

section \<open>Notions of the specification\<close>

text \<open>
  The specification speaks of the \<^verbatim>\<open>rdf:Description\<close> elements of the document, of
  elements at any depth, and of the tone curve a description carries.  These are its
  notions, defined here without the program's functions where that is possible, to be
  compared with what the program computes.

  \<open>at_depth n e\<close> are the elements exactly \<open>n\<close> levels below \<open>e\<close>; depth \<open>0\<close> is \<open>e\<close> itself.
\<close>

fun at_depth :: "nat \<Rightarrow> element \<Rightarrow> element list" where
  "at_depth 0 e = [e]"
| "at_depth (Suc n) e = concat (map (at_depth n) (children e))"

text \<open>Every \<^verbatim>\<open>rdf:Description\<close> of the document, the root included, in document order.\<close>

definition all_descriptions :: "element \<Rightarrow> element list" where
  "all_descriptions root = filter (\<lambda>d. tag d = rdf ''Description'') (iter root)"

text \<open>The text a key is given by an element: the empty string for no text.\<close>

definition text_or_empty :: "element \<Rightarrow> string" where
  "text_or_empty c = (case elem_text c of None \<Rightarrow> [] | Some s \<Rightarrow> s)"

text \<open>
  The texts of the \<^verbatim>\<open>rdf:li\<close> elements below an element that have a text, in document
  order.
\<close>

definition li_texts :: "element \<Rightarrow> string list" where
  "li_texts e =
     concat (map (\<lambda>li. case elem_text li of None \<Rightarrow> [] | Some s \<Rightarrow> [s])
       (filter (\<lambda>li. tag li = rdf ''li'') (descendants e)))"

text \<open>
  Some \<^verbatim>\<open>rdf:Description\<close> of the document has some \<^verbatim>\<open>crs:ToneCurve\<close> child with an
  \<^verbatim>\<open>rdf:li\<close> below it that has a text.
\<close>

definition some_tone_curve_has_text :: "element \<Rightarrow> bool" where
  "some_tone_curve_has_text root =
     list_ex (\<lambda>d. list_ex (\<lambda>tc. tag tc = crs ''ToneCurve'' \<and> li_texts tc \<noteq> []) (children d))
       (all_descriptions root)"

text \<open>
  The tone curve of a description as the program reads it: the texts below its first
  \<^verbatim>\<open>crs:ToneCurve\<close> child, and nothing when it has no such child.
\<close>

definition first_tone_curve :: "element \<Rightarrow> string list" where
  "first_tone_curve d =
     (case find_child (crs ''ToneCurve'') d of None \<Rightarrow> [] | Some tc \<Rightarrow> li_texts tc)"

section \<open>Example inputs\<close>

text \<open>
  Small documents and files on which the theorems below are instantiated.  The packet
  wrapper \<^verbatim>\<open>x:xmpmeta\<close> and \<^verbatim>\<open>rdf:RDF\<close> are as in a real packet; the texts are those
  of the specification's scenarios.
\<close>

definition packet :: "element list \<Rightarrow> element" where
  "packet ds = Element ''{adobe:ns:meta/}xmpmeta'' None [Element (rdf ''RDF'') None ds]"

definition description :: "element list \<Rightarrow> element" where
  "description props = Element (rdf ''Description'') None props"

definition two_contrasts_doc :: element where
  "two_contrasts_doc =
     packet [description [Element (crs ''Contrast'') (Some ''10'') []],
             description [Element (crs ''Contrast'') (Some ''25'') []]]"

definition curve_points :: "string option list \<Rightarrow> element" where
  "curve_points texts =
     Element (crs ''ToneCurve'') None
       [Element (rdf ''Seq'') None (map (\<lambda>t. Element (rdf ''li'') t []) texts)]"

definition exposure_curve_doc :: element where
  "exposure_curve_doc =
     packet [description [Element (crs ''Exposure'') (Some ''0.50'') [],
                          curve_points [Some ''0, 0'', Some ''32, 22'', Some ''255, 255'']]]"

definition curve_then_empty_curve_doc :: element where
  "curve_then_empty_curve_doc =
     packet [description [curve_points [Some ''0, 0'', None, Some ''255, 255'']],
             description [curve_points [None]]]"

definition two_curves_doc :: element where
  "two_curves_doc =
     packet [description [curve_points [], curve_points [Some ''0, 0'']]]"

definition empty_contrast_doc :: element where
  "empty_contrast_doc = packet [description [Element (crs ''Contrast'') None []]]"

definition root_description_doc :: element where
  "root_description_doc = description [Element (crs ''Contrast'') (Some ''10'') []]"

definition root_curve_doc :: element where
  "root_curve_doc = description [curve_points [Some ''0, 0'']]"

text \<open>
  A file whose first page has no \<^verbatim>\<open>XMP\<close> tag, a file whose first page has one, a
  payload cut off in the middle of a tag, and the parsers and openers the examples use.
  \<open>python_repr\<close> is \<^verbatim>\<open>repr\<close> on strings without quotes or escapes: the string in single
  quotes.
\<close>

definition width_tag :: tiff_tag where
  "width_tag = \<lparr>tag_name = ''ImageWidth'', tag_value = [0x02, 0x00]\<rparr>"

definition tiff_without_xmp :: tiff_file where
  "tiff_without_xmp = TiffFile (Inr [width_tag, \<lparr>tag_name = ''xmp'', tag_value = [0x3C]\<rparr>])"

definition tiff_with_xmp :: "byte list \<Rightarrow> tiff_file" where
  "tiff_with_xmp payload = TiffFile (Inr [width_tag, \<lparr>tag_name = ''XMP'', tag_value = payload\<rparr>])"

definition truncated_payload :: "byte list" where
  "truncated_payload = [0x3C, 0x61]"

definition failing_parser :: xml_parser where
  "failing_parser text = Inl (ParseError ''unclosed token: line 1, column 0'')"

definition python_repr :: "string \<Rightarrow> string" where
  "python_repr s = [CHR 0x27] @ s @ [CHR 0x27]"

section \<open>Facts about the model\<close>

lemmas doc_defs =
  packet_def description_def curve_points_def rdf_def crs_def rdf_uri_def crs_uri_def

lemmas run_defs =
  extract_params_def descriptions_def findall_descendant_def descendants_def
  process_description_def keys_to_extract_def findtext_def find_child_def
  extract_tone_curve_def tone_curve_values_def List.map_filter_def

subsection \<open>The keys one description can write\<close>

lemma keys_extract_keys:
  "fst ` set (extract_keys desc keys ps) \<subseteq> fst ` set ps \<union> set keys"
proof (induction keys arbitrary: ps)
  case Nil
  then show ?case by simp
next
  case (Cons key keys)
  show ?case
  proof (cases "findtext (crs key) desc")
    case None
    then show ?thesis using Cons.IH [of ps] by auto
  next
    case (Some v)
    have "fst ` set (AList.update key (Scalar v) ps) = {key} \<union> fst ` set ps"
      by (rule dom_update)
    then show ?thesis
      using Some Cons.IH [of "AList.update key (Scalar v) ps"] by auto
  qed
qed

lemma keys_extract_tone_curve:
  "fst ` set (extract_tone_curve desc ps) \<subseteq> fst ` set ps \<union> {''ToneCurve''}"
  by (auto simp: extract_tone_curve_def dom_update split: option.splits)

lemma keys_process_description:
  "fst ` set (process_description desc ps) \<subseteq> fst ` set ps \<union> set keys_to_extract \<union> {''ToneCurve''}"
  unfolding process_description_def
  using keys_extract_tone_curve [of desc "extract_keys desc keys_to_extract ps"]
    keys_extract_keys [of desc keys_to_extract ps]
  by blast

lemma keys_fold:
  "fst ` set (fold process_description ds ps) \<subseteq> fst ` set ps \<union> set keys_to_extract \<union> {''ToneCurve''}"
proof (induction ds arbitrary: ps)
  case Nil
  then show ?case by auto
next
  case (Cons d ds)
  show ?case
    using Cons.IH [of "process_description d ps"] keys_process_description [of d ps]
    by simp blast
qed

lemma map_of_extract_keys:
  "map_of (extract_keys desc keys ps) k =
     (if k \<in> set keys
      then (case findtext (crs k) desc of None \<Rightarrow> map_of ps k | Some v \<Rightarrow> Some (Scalar v))
      else map_of ps k)"
  by (induction keys arbitrary: ps) (auto simp: update_conv' split: option.splits)

lemma ToneCurve_not_key: "''ToneCurve'' \<notin> set keys_to_extract"
  by (simp add: keys_to_extract_def)

lemma map_filter_concat:
  "List.map_filter f xs = concat (map (\<lambda>x. case f x of None \<Rightarrow> [] | Some y \<Rightarrow> [y]) xs)"
  by (induction xs) (simp_all add: List.map_filter_simps split: option.splits)

lemma tone_curve_values_li_texts: "tone_curve_values e = li_texts e"
  by (simp add: tone_curve_values_def li_texts_def findall_descendant_def map_filter_concat)

lemma map_of_extract_tone_curve:
  "map_of (extract_tone_curve desc ps) k =
     (if k = ''ToneCurve'' \<and> first_tone_curve desc \<noteq> []
      then Some (Sequence (first_tone_curve desc)) else map_of ps k)"
  by (auto simp: extract_tone_curve_def first_tone_curve_def tone_curve_values_li_texts update_conv' split: option.splits)

lemma map_of_process_key:
  assumes "k \<in> set keys_to_extract"
  shows "map_of (process_description desc ps) k =
     (case findtext (crs k) desc of None \<Rightarrow> map_of ps k | Some v \<Rightarrow> Some (Scalar v))"
proof -
  have "k \<noteq> ''ToneCurve''" using assms ToneCurve_not_key by blast
  then show ?thesis
    using assms by (simp add: process_description_def map_of_extract_tone_curve map_of_extract_keys)
qed

lemma map_of_process_tone_curve:
  "map_of (process_description desc ps) ''ToneCurve'' =
     (if first_tone_curve desc \<noteq> [] then Some (Sequence (first_tone_curve desc))
      else map_of ps ''ToneCurve'')"
  by (simp add: process_description_def map_of_extract_tone_curve map_of_extract_keys ToneCurve_not_key)

lemma fold_last_writer:
  assumes step: "\<And>d ps. map_of (f d ps) k = (case w d of None \<Rightarrow> map_of ps k | Some v \<Rightarrow> Some v)"
  shows "map_of (fold f ds ps) k =
     (if filter (\<lambda>d. w d \<noteq> None) ds = [] then map_of ps k
      else w (last (filter (\<lambda>d. w d \<noteq> None) ds)))"
proof (induction ds rule: rev_induct)
  case Nil
  then show ?case by simp
next
  case (snoc d ds)
  show ?case
  proof (cases "w d")
    case None
    then show ?thesis using snoc by (simp add: step)
  next
    case (Some v)
    then show ?thesis by (simp add: step)
  qed
qed

lemma iter_descendants: "iter e = e # descendants e"
  by (cases e) (simp add: descendants_def)

lemma size_iter: "d \<in> set (iter e) \<Longrightarrow> size d \<le> size e"
proof (induction e arbitrary: d)
  case (Element t x cs)
  show ?case
  proof (cases "d = Element t x cs")
    case True
    then show ?thesis by simp
  next
    case False
    with Element.prems obtain c where c: "c \<in> set cs" "d \<in> set (iter c)" by auto
    then have "size d \<le> size c" using Element.IH by blast
    moreover have "size c < size (Element t x cs)"
      using c(1) by (simp add: size_list_estimation' less_Suc_eq_le)
    ultimately show ?thesis by simp
  qed
qed

lemma size_descendants: "d \<in> set (descendants e) \<Longrightarrow> size d < size e"
proof -
  assume "d \<in> set (descendants e)"
  then obtain c where c: "c \<in> set (children e)" "d \<in> set (iter c)"
    by (auto simp: descendants_def)
  have "size c < size e"
    using c(1) by (cases e) (simp add: size_list_estimation' less_Suc_eq_le)
  with size_iter [OF c(2)] show ?thesis by simp
qed

lemma iter_at_depth: "d \<in> set (iter e) \<longleftrightarrow> (\<exists>n. d \<in> set (at_depth n e))"
proof
  assume "d \<in> set (iter e)"
  then show "\<exists>n. d \<in> set (at_depth n e)"
  proof (induction e)
    case (Element t x cs)
    show ?case
    proof (cases "d = Element t x cs")
      case True
      then have "d \<in> set (at_depth 0 (Element t x cs))" by simp
      then show ?thesis by blast
    next
      case False
      with Element.prems obtain c where c: "c \<in> set cs" "d \<in> set (iter c)" by auto
      then obtain n where "d \<in> set (at_depth n c)" using Element.IH by blast
      with c(1) have "d \<in> set (at_depth (Suc n) (Element t x cs))" by auto
      then show ?thesis by blast
    qed
  qed
next
  assume "\<exists>n. d \<in> set (at_depth n e)"
  then obtain n where "d \<in> set (at_depth n e)" by blast
  then show "d \<in> set (iter e)"
  proof (induction n arbitrary: e)
    case 0
    then show ?case by (cases e) simp
  next
    case (Suc n)
    then obtain c where c: "c \<in> set (children e)" "d \<in> set (at_depth n c)" by auto
    then have "d \<in> set (iter c)" using Suc.IH by blast
    with c(1) show ?case by (cases e) auto
  qed
qed

lemma descendants_at_depth: "d \<in> set (descendants e) \<longleftrightarrow> (\<exists>n. d \<in> set (at_depth (Suc n) e))"
  by (auto simp: descendants_def iter_at_depth)

subsection \<open>The decoder on sample payloads\<close>

text \<open>
  The decoder on byte strings that exercise every kind of malformed stretch: a stray
  byte, a sequence cut short by another character or by the end, an overlong form, a
  surrogate and a value above U+10FFFF.  The right-hand sides are what CPython returns.
\<close>

lemma utf8_decode_replace_samples:
  "utf8_decode_replace [0xE2, 0x82, 0xAC, 0xC3, 0xA9, 0xF0, 0x9F, 0x98, 0x80] =
     [0x20AC, 0xE9, 0x1F600]"
  "utf8_decode_replace [0xE2, 0x82, 0x41] = [0xFFFD, 0x41]"
  "utf8_decode_replace [0xE0, 0x80] = [0xFFFD, 0xFFFD]"
  "utf8_decode_replace [0xED, 0xA0, 0x80] = [0xFFFD, 0xFFFD, 0xFFFD]"
  "utf8_decode_replace [0xF4, 0x8F, 0xBF, 0xBF, 0xF4, 0x90] = [0x10FFFF, 0xFFFD, 0xFFFD]"
  "utf8_decode_replace [0xC0, 0x80, 0xF5] = [0xFFFD, 0xFFFD, 0xFFFD]"
  "utf8_decode_replace [0xF0, 0x9F, 0x98] = [0xFFFD]"
  by (simp_all add: utf8_decode_replace_def lead_def replacement_character_def)

lemma utf8_decode_strict_samples:
  "utf8_decode_strict [0xE2, 0x82, 0xAC, 0xC3, 0xA9, 0xF0, 0x9F, 0x98, 0x80] =
     Some [0x20AC, 0xE9, 0x1F600]"
  "utf8_decode_strict [0xE2, 0x82, 0x41] = None"
  "utf8_decode_strict [0xF0, 0x9F, 0x98] = None"
  by (simp_all add: utf8_decode_strict_def lead_def)

subsection \<open>The decoder gives scalar values only\<close>

lemma and_mask_mod:
  "unat ((b :: 8 word) AND 0x3F) = unat b mod 64"
  "unat ((b :: 8 word) AND 0x1F) = unat b mod 32"
  "unat ((b :: 8 word) AND 0x0F) = unat b mod 16"
  "unat ((b :: 8 word) AND 0x07) = unat b mod 8"
proof -
  have "(0x3F :: 8 word) = mask 6" "(0x1F :: 8 word) = mask 5" "(0x0F :: 8 word) = mask 4"
    "(0x07 :: 8 word) = mask 3"
    by (simp_all add: mask_eq_exp_minus_1)
  then have "b AND 0x3F = take_bit 6 b" "b AND 0x1F = take_bit 5 b" "b AND 0x0F = take_bit 4 b"
    "b AND 0x07 = take_bit 3 b"
    by (simp_all add: take_bit_eq_mask)
  then show "unat (b AND 0x3F) = unat b mod 64" "unat (b AND 0x1F) = unat b mod 32"
    "unat (b AND 0x0F) = unat b mod 16" "unat (b AND 0x07) = unat b mod 8"
    by (simp_all add: take_bit_eq_mod unat_mod)
qed

lemmas byte_as_nat = word_le_nat_alt word_less_nat_alt word_unat_eq_iff and_mask_mod

lemma lead_ok: "state_ok (snd (lead b)) \<and> (\<forall>e \<in> set (fst (lead b)). decoded_ok e)"
proof -
  define k where "k = unat b"
  consider "k < 128" | "194 \<le> k \<and> k \<le> 223" | "k = 224" | "225 \<le> k \<and> k \<le> 236" | "k = 237"
    | "238 \<le> k \<and> k \<le> 239" | "k = 240" | "241 \<le> k \<and> k \<le> 243" | "k = 244"
    | "128 \<le> k \<and> k < 194" | "245 \<le> k"
    by linarith
  then show ?thesis
  proof cases
    case 1 then show ?thesis by (simp add: lead_def byte_as_nat scalar_value_def flip: k_def)
  next
    case 2 
    then have "2 \<le> k mod 32 \<and> k mod 32 \<le> 31" by presburger
    with 2 show ?thesis by (simp add: lead_def byte_as_nat flip: k_def)
  next
    case 3 then show ?thesis by (simp add: lead_def byte_as_nat flip: k_def)
  next
    case 4
    then have "1 \<le> k mod 16 \<and> k mod 16 \<le> 12" by presburger
    with 4 show ?thesis by (simp add: lead_def byte_as_nat flip: k_def)
  next
    case 5 then show ?thesis by (simp add: lead_def byte_as_nat flip: k_def)
  next
    case 6
    then have "14 \<le> k mod 16 \<and> k mod 16 \<le> 15" by presburger
    with 6 show ?thesis by (simp add: lead_def byte_as_nat flip: k_def)
  next
    case 7 then show ?thesis by (simp add: lead_def byte_as_nat flip: k_def)
  next
    case 8
    then have "1 \<le> k mod 8 \<and> k mod 8 \<le> 3" by presburger
    with 8 show ?thesis by (simp add: lead_def byte_as_nat flip: k_def)
  next
    case 9 then show ?thesis by (simp add: lead_def byte_as_nat flip: k_def)
  next
    case 10 then show ?thesis by (simp add: lead_def byte_as_nat flip: k_def)
  next
    case 11 then show ?thesis by (simp add: lead_def byte_as_nat flip: k_def)
  qed
qed


lemma continuation_bits: "128 \<le> k \<Longrightarrow> k \<le> (191::nat) \<Longrightarrow> k mod 64 = k - 128"
proof -
  assume "128 \<le> k" "k \<le> 191"
  then obtain j where j: "k = 128 + j" "j < 64"
    using le_Suc_ex [of 128 k] by auto
  have "(64 * 2 + j) mod 64 = j mod 64" by (rule mod_mult_self4)
  with j show ?thesis by simp
qed

lemma last_continuation_in_range:
  fixes cp j lj hj :: nat
  assumes "lj \<le> j" "j \<le> hj"
    and "cp * 64 + hj + 1 \<le> 1114112"
    and "cp * 64 + hj + 1 \<le> 55296 \<or> 57344 \<le> cp * 64 + lj"
  shows "cp * 64 + j \<le> 1114111 \<and> \<not> (55296 \<le> cp * 64 + j \<and> cp * 64 + j \<le> 57343)"
  using assms by linarith

lemma pending_range_narrows:
  fixes cp j lj hj m :: nat
  assumes "lj \<le> j" "j \<le> hj"
    and "(cp * 64 + hj + 1) * (64 * m) \<le> 1114112"
    and "(cp * 64 + hj + 1) * (64 * m) \<le> 55296 \<or> 57344 \<le> (cp * 64 + lj) * (64 * m)"
  shows "((cp * 64 + j) * 64 + 63 + 1) * m \<le> 1114112 \<and>
         (((cp * 64 + j) * 64 + 63 + 1) * m \<le> 55296 \<or> 57344 \<le> ((cp * 64 + j) * 64 + 0) * m)"
proof -
  have up: "((cp * 64 + j) * 64 + 63 + 1) * m = (cp * 64 + j + 1) * (64 * m)"
    by (simp add: algebra_simps)
  have down: "((cp * 64 + j) * 64 + 0) * m = (cp * 64 + j) * (64 * m)"
    by (simp add: algebra_simps)
  have le_up: "(cp * 64 + j + 1) * (64 * m) \<le> (cp * 64 + hj + 1) * (64 * m)"
    using assms(2) by (intro mult_le_mono1) simp
  have le_down: "(cp * 64 + lj) * (64 * m) \<le> (cp * 64 + j) * (64 * m)"
    using assms(1) by (intro mult_le_mono1) simp
  from le_up le_down assms(3,4) show ?thesis
    unfolding up down by linarith
qed


lemma continuation_ok:
  assumes ok: "state_ok (Pending n cp lo hi)" and range: "lo \<le> b" "b \<le> hi"
  shows "(n = 1 \<longrightarrow> scalar_value (cp * 64 + unat (b AND 0x3F))) \<and>
         (n \<noteq> 1 \<longrightarrow> state_ok (Pending (n - 1) (cp * 64 + unat (b AND 0x3F)) 0x80 0xBF))"
proof -
  define j lj hj where "j = unat b - 128" and "lj = unat lo - 128" and "hj = unat hi - 128"
  from ok range have bounds: "128 \<le> unat lo" "unat lo \<le> unat b" "unat b \<le> unat hi"
    "unat hi \<le> 191"
    by (simp_all add: word_le_nat_alt)
  then have order: "lj \<le> j" "j \<le> hj"
    by (simp_all add: j_def lj_def hj_def)
  from bounds have "128 \<le> unat b" "unat b \<le> 191" by simp_all
  then have "unat b mod 64 = j" unfolding j_def by (rule continuation_bits)
  then have bits: "unat (b AND 0x3F) = j" by (simp add: and_mask_mod)
  from ok have n: "1 \<le> n" "n \<le> 3" by simp_all
  from ok have top: "(cp * 64 + hj + 1) * 64 ^ (n - 1) \<le> 1114112"
    and gap: "(cp * 64 + hj + 1) * 64 ^ (n - 1) \<le> 55296 \<or>
              57344 \<le> (cp * 64 + lj) * 64 ^ (n - 1)"
    by (simp_all add: hj_def lj_def)
  show ?thesis
  proof (cases "n = 1")
    case True
    with top gap have "cp * 64 + hj + 1 \<le> 1114112"
      "cp * 64 + hj + 1 \<le> 55296 \<or> 57344 \<le> cp * 64 + lj"
      by simp_all
    from last_continuation_in_range [OF order this] True show ?thesis
      by (simp add: bits scalar_value_def)
  next
    case False
    with n obtain k where k: "n - 1 = Suc k" "k \<le> 1"
      by (cases "n - 1") auto
    then have pow: "(64::nat) ^ (n - 1) = 64 * 64 ^ k" by simp
    from k have less: "n - Suc (Suc 0) = k" by simp
    from pending_range_narrows [OF order top [unfolded pow] gap [unfolded pow]]
    have "((cp * 64 + j) * 64 + 63 + 1) * 64 ^ k \<le> 1114112 \<and>
         (((cp * 64 + j) * 64 + 63 + 1) * 64 ^ k \<le> 55296 \<or>
          57344 \<le> ((cp * 64 + j) * 64 + 0) * 64 ^ k)" .
    moreover from k n have "1 \<le> n - 1" "n - 1 \<le> 3" by simp_all
    ultimately have "state_ok (Pending (n - 1) (cp * 64 + j) 0x80 0xBF)"
      by (simp add: less)
    with False show ?thesis by (simp add: bits)
  qed
qed

lemma events_ok: "state_ok st \<Longrightarrow> \<forall>e \<in> set (utf8_events st bs). decoded_ok e"
proof (induction st bs rule: utf8_events.induct)
  case 1
  then show ?case by simp
next
  case (2 n cp lo hi)
  then show ?case by simp
next
  case (3 b bs)
  obtain out st where l: "lead b = (out, st)" by (cases "lead b")
  with lead_ok [of b] have "state_ok st" "\<forall>e \<in> set out. decoded_ok e" by simp_all
  with 3 l show ?case by auto
next
  case (4 n cp lo hi b bs)
  show ?case
  proof (cases "lo \<le> b \<and> b \<le> hi")
    case True
    note step = continuation_ok [OF "4.prems", of b]
    show ?thesis
    proof (cases "n = 1")
      case one: True
      with True step have "scalar_value (cp * 64 + unat (b AND 0x3F))" by simp
      moreover have "\<forall>e \<in> set (utf8_events Start bs). decoded_ok e"
        using "4.IH"(1) True one by simp
      ultimately show ?thesis using True one by simp
    next
      case more: False
      with True step have "state_ok (Pending (n - 1) (cp * 64 + unat (b AND 0x3F)) 0x80 0xBF)"
        by simp
      then have "\<forall>e \<in> set (utf8_events (Pending (n - 1) (cp * 64 + unat (b AND 0x3F)) 0x80 0xBF) bs).
          decoded_ok e"
        using "4.IH"(2) True more by simp
      then show ?thesis using True more by simp
    qed
  next
    case False
    obtain out st where l: "lead b = (out, st)" by (cases "lead b")
    with lead_ok [of b] have "state_ok st" "\<forall>e \<in> set out. decoded_ok e" by simp_all
    moreover from this(1) have "\<forall>e \<in> set (utf8_events st bs). decoded_ok e"
      using "4.IH"(3) False l by simp
    ultimately show ?thesis using False l by auto
  qed
qed

lemma replacement_is_scalar: "scalar_value replacement_character"
  by (simp add: scalar_value_def replacement_character_def)

lemma utf8_decode_replace_scalar: "\<forall>c \<in> set (utf8_decode_replace bs). scalar_value c"
proof
  fix c assume "c \<in> set (utf8_decode_replace bs)"
  then obtain e where e: "e \<in> set (utf8_events Start bs)" "c = replace_malformed e"
    by (auto simp: utf8_decode_replace_def)
  with events_ok [of Start bs] have "decoded_ok e" by simp
  with e(2) show "scalar_value c"
    by (cases e) (simp_all add: replacement_is_scalar)
qed

section \<open>The claims\<close>

text \<open>
  C1.  Whatever the payload and whatever the parser makes of it, every key of the
  dictionary that \<open>parse_xmp\<close> returns is one of \<open>keys_to_extract\<close> or is
  \<^verbatim>\<open>ToneCurve\<close>.
\<close>

theorem parse_xmp_keys_allowed:
  assumes "parse_xmp fromstring xmp_bytes = Inr (out, editing_params)"
  shows "fst ` set editing_params \<subseteq> set keys_to_extract \<union> {''ToneCurve''}"
proof (cases "fromstring (utf8_decode_replace xmp_bytes)")
  case (Inl e)
  with assms have "editing_params = []"
    by (cases e) (simp_all add: parse_xmp_def)
  then show ?thesis by simp
next
  case (Inr root)
  with assms have "editing_params = fold process_description (descriptions root) []"
    by (simp add: parse_xmp_def extract_params_def)
  then show ?thesis
    using keys_fold [of "descriptions root" "[]"] by simp
qed

theorem parse_xmp_keys_allowed_witness:
  "parse_xmp (\<lambda>text. Inr exposure_curve_doc) [0x3C] =
     Inr ([], [(''Exposure'', Scalar ''0.50''),
               (''ToneCurve'', Sequence [''0, 0'', ''32, 22'', ''255, 255''])]) \<and>
   fst ` set [(''Exposure'', Scalar ''0.50''),
              (''ToneCurve'', Sequence [''0, 0'', ''32, 22'', ''255, 255''])]
     \<subseteq> set keys_to_extract \<union> {''ToneCurve''}"
proof -
  have run: "parse_xmp (\<lambda>text. Inr exposure_curve_doc) [0x3C] =
     Inr ([], [(''Exposure'', Scalar ''0.50''),
               (''ToneCurve'', Sequence [''0, 0'', ''32, 22'', ''255, 255''])])"
    by (simp add: parse_xmp_def exposure_curve_doc_def doc_defs run_defs)
  from run parse_xmp_keys_allowed [OF run] show ?thesis by (rule conjI)
qed

lemma all_descriptions_root:
  "all_descriptions root =
     (if tag root = rdf ''Description'' then [root] else []) @ descriptions root"
  by (simp add: all_descriptions_def descriptions_def findall_descendant_def iter_descendants)

lemma findtext_text_or_empty:
  "findtext tg e = map_option text_or_empty (find_child tg e)"
  by (simp add: findtext_def text_or_empty_def split: option.splits)

lemma extract_params_key:
  assumes "key \<in> set keys_to_extract"
  shows "map_of (extract_params root) key =
     (if filter (\<lambda>d. find_child (crs key) d \<noteq> None) (descriptions root) = [] then None
      else map_option (\<lambda>c. Scalar (text_or_empty c))
             (find_child (crs key)
                (last (filter (\<lambda>d. find_child (crs key) d \<noteq> None) (descriptions root)))))"
proof -
  let ?w = "\<lambda>d. map_option (\<lambda>c. Scalar (text_or_empty c)) (find_child (crs key) d)"
  have step: "map_of (process_description d ps) key =
      (case ?w d of None \<Rightarrow> map_of ps key | Some v \<Rightarrow> Some v)" for d ps
    using assms by (simp add: map_of_process_key findtext_text_or_empty split: option.splits)
  have same: "(\<lambda>d. ?w d \<noteq> None) = (\<lambda>d. find_child (crs key) d \<noteq> None)"
    by (simp add: fun_eq_iff)
  show ?thesis
    unfolding extract_params_def
    using fold_last_writer [of process_description key ?w "descriptions root" "[]", OF step]
    by (simp only: same map_of.simps)
qed

text \<open>
  C2.  When an allow-listed \<^verbatim>\<open>crs:\<close> element is a child of several \<^verbatim>\<open>rdf:Description\<close>
  elements of the document, the returned dictionary has, for that key, the value read
  from the last of them in document order.  The descriptions are counted over the whole
  document, the root included; the value read is the text of the first such child.  The
  witness is the scenario of the specification: \<^verbatim>\<open>Contrast\<close> set to 10 and then to 25.
\<close>

theorem last_description_wins:
  assumes parsed: "fromstring (utf8_decode_replace xmp_bytes) = Inr root"
    and key: "key \<in> set keys_to_extract"
    and ds: "ds = filter (\<lambda>d. find_child (crs key) d \<noteq> None) (all_descriptions root)"
    and several: "2 \<le> length ds"
  shows "\<exists>c. find_child (crs key) (last ds) = Some c \<and>
           (\<exists>out editing_params.
              parse_xmp fromstring xmp_bytes = Inr (out, editing_params) \<and>
              map_of editing_params key = Some (Scalar (text_or_empty c)))"
proof -
  let ?P = "\<lambda>d. find_child (crs key) d \<noteq> None"
  let ?below = "filter ?P (descriptions root)"
  have split: "ds = filter ?P (if tag root = rdf ''Description'' then [root] else []) @ ?below"
    by (simp add: ds all_descriptions_root)
  have "length (filter ?P (if tag root = rdf ''Description'' then [root] else [])) \<le> 1"
    by simp
  with several split have nonempty: "?below \<noteq> []"
    by (metis One_nat_def Suc_1 append_Nil2 not_less_eq_eq)
  with split have last: "last ds = last ?below" by simp
  have "last ?below \<in> set ?below" using nonempty by (rule last_in_set)
  then have "?P (last ?below)" by simp
  then obtain c where c: "find_child (crs key) (last ?below) = Some c" by blast
  have "map_of (extract_params root) key = Some (Scalar (text_or_empty c))"
    using nonempty c by (simp add: extract_params_key [OF key])
  moreover have "parse_xmp fromstring xmp_bytes = Inr ([], extract_params root)"
    using parsed by (simp add: parse_xmp_def)
  ultimately show ?thesis using c last by auto
qed

theorem last_description_wins_witness:
  "''Contrast'' \<in> set keys_to_extract \<and>
   2 \<le> length (filter (\<lambda>d. find_child (crs ''Contrast'') d \<noteq> None)
                 (all_descriptions two_contrasts_doc)) \<and>
   (\<exists>c. find_child (crs ''Contrast'')
           (last (filter (\<lambda>d. find_child (crs ''Contrast'') d \<noteq> None)
                    (all_descriptions two_contrasts_doc))) = Some c \<and>
        (\<exists>out editing_params.
           parse_xmp (\<lambda>text. Inr two_contrasts_doc) [0x3C] = Inr (out, editing_params) \<and>
           map_of editing_params ''Contrast'' = Some (Scalar (text_or_empty c)))) \<and>
   parse_xmp (\<lambda>text. Inr two_contrasts_doc) [0x3C] = Inr ([], [(''Contrast'', Scalar ''25'')])"
proof -
  have key: "''Contrast'' \<in> set keys_to_extract"
    by (simp add: keys_to_extract_def)
  have ds: "filter (\<lambda>d. find_child (crs ''Contrast'') d \<noteq> None)
              (all_descriptions two_contrasts_doc) =
            [description [Element (crs ''Contrast'') (Some ''10'') []],
             description [Element (crs ''Contrast'') (Some ''25'') []]]"
    by (simp add: two_contrasts_doc_def all_descriptions_def find_child_def doc_defs)
  have several: "2 \<le> length (filter (\<lambda>d. find_child (crs ''Contrast'') d \<noteq> None)
                         (all_descriptions two_contrasts_doc))"
    by (simp only: ds) simp
  have run: "parse_xmp (\<lambda>text. Inr two_contrasts_doc) [0x3C] =
               Inr ([], [(''Contrast'', Scalar ''25'')])"
    by (simp add: parse_xmp_def two_contrasts_doc_def doc_defs run_defs)
  show ?thesis
    using key several run
      last_description_wins [of "\<lambda>text. Inr two_contrasts_doc" "[0x3C]" two_contrasts_doc
        "''Contrast''", OF _ key refl several]
    by blast
qed

lemma extract_params_tone_curve:
  "map_of (extract_params root) ''ToneCurve'' =
     (if filter (\<lambda>d. first_tone_curve d \<noteq> []) (descriptions root) = [] then None
      else Some (Sequence (first_tone_curve
             (last (filter (\<lambda>d. first_tone_curve d \<noteq> []) (descriptions root))))))"
proof -
  let ?w = "\<lambda>d. if first_tone_curve d \<noteq> [] then Some (Sequence (first_tone_curve d)) else None"
  let ?ds = "filter (\<lambda>d. first_tone_curve d \<noteq> []) (descriptions root)"
  have step: "map_of (process_description d ps) ''ToneCurve'' =
      (case ?w d of None \<Rightarrow> map_of ps ''ToneCurve'' | Some v \<Rightarrow> Some v)" for d ps
    by (simp add: map_of_process_tone_curve)
  have same: "(\<lambda>d. ?w d \<noteq> None) = (\<lambda>d. first_tone_curve d \<noteq> [])"
    by (simp add: fun_eq_iff)
  have folded: "map_of (extract_params root) ''ToneCurve'' =
      (if ?ds = [] then None else ?w (last ?ds))"
    unfolding extract_params_def
    using fold_last_writer [of process_description "''ToneCurve''" ?w "descriptions root" "[]", OF step]
    by (simp only: same map_of.simps)
  show ?thesis
  proof (cases "?ds = []")
    case True
    then show ?thesis using folded by simp
  next
    case False
    then have "last ?ds \<in> set ?ds" by (rule last_in_set)
    then have "first_tone_curve (last ?ds) \<noteq> []" by simp
    then show ?thesis using folded False by simp
  qed
qed

text \<open>
  C3, as stated, fails on two documents.  In the first a description has two
  \<^verbatim>\<open>crs:ToneCurve\<close> children, the first without points and the second with one: some
  \<^verbatim>\<open>crs:ToneCurve\<close> child has a text below it, and no key is stored, because the program
  looks at the first such child only.  In the second the description with the curve is
  the root of the document, which the program does not visit.
\<close>

theorem tone_curve_counterexample:
  "some_tone_curve_has_text two_curves_doc \<and>
   parse_xmp (\<lambda>text. Inr two_curves_doc) [0x3C] = Inr ([], []) \<and>
   some_tone_curve_has_text root_curve_doc \<and>
   parse_xmp (\<lambda>text. Inr root_curve_doc) [0x3C] = Inr ([], [])"
proof -
  have texts: "li_texts (curve_points [Some ''0, 0'']) = [''0, 0'']"
    by (simp add: li_texts_def descendants_def doc_defs)
  have curve: "tag (curve_points [Some ''0, 0'']) = crs ''ToneCurve''"
    by (simp add: curve_points_def)
  have "description [curve_points [], curve_points [Some ''0, 0'']]
      \<in> set (all_descriptions two_curves_doc)"
    by (simp add: all_descriptions_def two_curves_doc_def packet_def description_def)
  moreover have "children (description [curve_points [], curve_points [Some ''0, 0'']]) =
      [curve_points [], curve_points [Some ''0, 0'']]"
    by (simp add: description_def)
  ultimately have first: "some_tone_curve_has_text two_curves_doc"
    using texts curve unfolding some_tone_curve_has_text_def list_ex_iff by force
  have "root_curve_doc \<in> set (all_descriptions root_curve_doc)"
    by (simp add: all_descriptions_def root_curve_doc_def description_def)
  moreover have "children root_curve_doc = [curve_points [Some ''0, 0'']]"
    by (simp add: root_curve_doc_def description_def)
  ultimately have second: "some_tone_curve_has_text root_curve_doc"
    using texts curve unfolding some_tone_curve_has_text_def list_ex_iff by force
  have "parse_xmp (\<lambda>text. Inr two_curves_doc) [0x3C] = Inr ([], [])"
    by (simp add: parse_xmp_def two_curves_doc_def doc_defs run_defs)
  moreover have "parse_xmp (\<lambda>text. Inr root_curve_doc) [0x3C] = Inr ([], [])"
    by (simp add: parse_xmp_def root_curve_doc_def doc_defs run_defs)
  ultimately show ?thesis using first second by blast
qed

text \<open>
  C3, amended.  In a document whose root is not itself an \<^verbatim>\<open>rdf:Description\<close>,
  \<^verbatim>\<open>ToneCurve\<close> is a key of the result exactly when some \<^verbatim>\<open>rdf:Description\<close> has a
  first \<^verbatim>\<open>crs:ToneCurve\<close> child with an \<^verbatim>\<open>rdf:li\<close> below it, at any depth, that has a
  text.  Its value is then the sequence of those texts, in document order and never
  empty, of the last such description: a later description whose first
  \<^verbatim>\<open>crs:ToneCurve\<close> child gives no text, or that has no such child, neither stores a
  value nor clears the one stored.
\<close>

theorem tone_curve_from_last_description:
  assumes parsed: "fromstring (utf8_decode_replace xmp_bytes) = Inr root"
    and root: "tag root \<noteq> rdf ''Description''"
    and ds: "ds = filter (\<lambda>d. first_tone_curve d \<noteq> []) (all_descriptions root)"
  shows "\<exists>out editing_params.
           parse_xmp fromstring xmp_bytes = Inr (out, editing_params) \<and>
           map_of editing_params ''ToneCurve'' =
             (if ds = [] then None else Some (Sequence (first_tone_curve (last ds)))) \<and>
           Some (Sequence []) \<noteq> map_of editing_params ''ToneCurve''"
proof -
  have run: "parse_xmp fromstring xmp_bytes = Inr ([], extract_params root)"
    using parsed by (simp add: parse_xmp_def)
  have below: "all_descriptions root = descriptions root"
    using root by (simp add: all_descriptions_root)
  have val: "map_of (extract_params root) ''ToneCurve'' =
      (if ds = [] then None else Some (Sequence (first_tone_curve (last ds))))"
    unfolding ds below by (rule extract_params_tone_curve)
  have "first_tone_curve (last ds) \<noteq> []" if "ds \<noteq> []"
  proof -
    from that have "last ds \<in> set ds" by (rule last_in_set)
    then show ?thesis unfolding ds by simp
  qed
  with val have "Some (Sequence []) \<noteq> map_of (extract_params root) ''ToneCurve''"
    by (cases "ds = []") auto
  with run val show ?thesis by blast
qed

theorem tone_curve_from_last_description_witness:
  "tag curve_then_empty_curve_doc \<noteq> rdf ''Description'' \<and>
   all_descriptions curve_then_empty_curve_doc =
     [description [curve_points [Some ''0, 0'', None, Some ''255, 255'']],
      description [curve_points [None]]] \<and>
   filter (\<lambda>d. first_tone_curve d \<noteq> []) (all_descriptions curve_then_empty_curve_doc) =
     [description [curve_points [Some ''0, 0'', None, Some ''255, 255'']]] \<and>
   (\<exists>out editing_params.
      parse_xmp (\<lambda>text. Inr curve_then_empty_curve_doc) [0x3C] = Inr (out, editing_params) \<and>
      map_of editing_params ''ToneCurve'' = Some (Sequence [''0, 0'', ''255, 255'']))"
proof -
  have root: "tag curve_then_empty_curve_doc \<noteq> rdf ''Description''"
    by (simp add: curve_then_empty_curve_doc_def packet_def rdf_def)
  have all: "all_descriptions curve_then_empty_curve_doc =
     [description [curve_points [Some ''0, 0'', None, Some ''255, 255'']],
      description [curve_points [None]]]"
    by (simp add: curve_then_empty_curve_doc_def all_descriptions_def doc_defs)
  have c1: "first_tone_curve (description [curve_points [Some ''0, 0'', None, Some ''255, 255'']]) =
      [''0, 0'', ''255, 255'']"
    by (simp add: first_tone_curve_def find_child_def li_texts_def descendants_def doc_defs)
  have c2: "first_tone_curve (description [curve_points [None]]) = []"
    by (simp add: first_tone_curve_def find_child_def li_texts_def descendants_def doc_defs)
  have ds: "filter (\<lambda>d. first_tone_curve d \<noteq> []) (all_descriptions curve_then_empty_curve_doc) =
     [description [curve_points [Some ''0, 0'', None, Some ''255, 255'']]]"
    by (simp only: all filter.simps c1 c2) simp
  have doc: "(\<lambda>text. Inr curve_then_empty_curve_doc) (utf8_decode_replace [0x3C]) =
      (Inr curve_then_empty_curve_doc :: py_exception + element)"
    by simp
  from tone_curve_from_last_description [OF doc root refl]
  obtain out editing_params where
    run: "parse_xmp (\<lambda>text. Inr curve_then_empty_curve_doc) [0x3C] = Inr (out, editing_params)"
    and val: "map_of editing_params ''ToneCurve'' =
      (if filter (\<lambda>d. first_tone_curve d \<noteq> []) (all_descriptions curve_then_empty_curve_doc) = []
       then None
       else Some (Sequence (first_tone_curve
              (last (filter (\<lambda>d. first_tone_curve d \<noteq> [])
                 (all_descriptions curve_then_empty_curve_doc))))))"
    by blast
  from val have "map_of editing_params ''ToneCurve'' = Some (Sequence [''0, 0'', ''255, 255''])"
    by (simp only: ds) (simp add: c1)
  with root run all ds show ?thesis by blast
qed

text \<open>
  C4.  When the parser raises \<^verbatim>\<open>ParseError\<close> on the decoded payload, \<open>parse_xmp\<close>
  returns normally: it has printed one line, the diagnostic with the parser's message,
  and its result is the empty dictionary.
\<close>

theorem malformed_xml_gives_empty:
  assumes "fromstring (utf8_decode_replace xmp_bytes) = Inl (ParseError msg)"
  shows "parse_xmp fromstring xmp_bytes = Inr ([''Error parsing XMP metadata: '' @ msg], [])"
  using assms by (simp add: parse_xmp_def)

theorem malformed_xml_gives_empty_witness:
  "failing_parser (utf8_decode_replace truncated_payload) =
     Inl (ParseError ''unclosed token: line 1, column 0'') \<and>
   parse_xmp failing_parser truncated_payload =
     Inr ([''Error parsing XMP metadata: unclosed token: line 1, column 0''], [])"
proof -
  have raised: "failing_parser (utf8_decode_replace truncated_payload) =
      Inl (ParseError ''unclosed token: line 1, column 0'')"
    by (simp add: failing_parser_def)
  from raised malformed_xml_gives_empty [of failing_parser truncated_payload, OF raised]
  show ?thesis by simp
qed

lemma find_xmp_None: "find_xmp page = None \<longleftrightarrow> (\<forall>t \<in> set page. tag_name t \<noteq> ''XMP'')"
  by (auto simp: find_xmp_def find_None_iff)

text \<open>
  C5.  When the file opens, its first page can be read and no tag of that page is named
  \<^verbatim>\<open>XMP\<close>, the body of the \<^verbatim>\<open>try\<close> returns \<^verbatim>\<open>None\<close> without raising, and
  \<open>extract_editing_metadata\<close> prints the one line that no XMP metadata was found and
  returns \<^verbatim>\<open>None\<close>.  The name is compared exactly: the witness has a tag named
  \<^verbatim>\<open>xmp\<close>.  A payload that does not parse gives the empty dictionary instead
  (\<open>unparseable_payload_gives_empty\<close> below), so the two cases differ in the result.
\<close>

theorem missing_xmp_tag_gives_none:
  assumes "open_tiff path = Inr tif"
    and "first_page tif = Inr page"
    and "\<forall>t \<in> set page. tag_name t \<noteq> ''XMP''"
  shows "extract_body open_tiff fromstring path =
           ([''No XMP metadata found in the file.''], Inr None) \<and>
         extract_editing_metadata open_tiff fromstring path =
           ([''No XMP metadata found in the file.''], None)"
proof -
  have "find_xmp page = None" using assms(3) by (simp only: find_xmp_None)
  with assms(1,2) show ?thesis
    by (simp add: extract_editing_metadata_def extract_body_def)
qed

theorem missing_xmp_tag_gives_none_witness:
  "first_page tiff_without_xmp = Inr [width_tag, \<lparr>tag_name = ''xmp'', tag_value = [0x3C]\<rparr>] \<and>
   list_all (\<lambda>t. tag_name t \<noteq> ''XMP'') [width_tag, \<lparr>tag_name = ''xmp'', tag_value = [0x3C]\<rparr>] \<and>
   extract_editing_metadata (\<lambda>path. Inr tiff_without_xmp) failing_parser file_path =
     ([''No XMP metadata found in the file.''], None)"
proof -
  have page: "first_page tiff_without_xmp =
      Inr [width_tag, \<lparr>tag_name = ''xmp'', tag_value = [0x3C]\<rparr>]"
    by (simp add: tiff_without_xmp_def)
  have none: "\<forall>t \<in> set [width_tag, \<lparr>tag_name = ''xmp'', tag_value = [0x3C]\<rparr>]. tag_name t \<noteq> ''XMP''"
    by (simp add: width_tag_def)
  show ?thesis
    using page none
      missing_xmp_tag_gives_none [of "\<lambda>path. Inr tiff_without_xmp" file_path tiff_without_xmp
        _ failing_parser, OF refl page none]
    by (simp add: list_all_iff)
qed

lemma unparseable_payload_gives_empty:
  assumes "open_tiff path = Inr tif"
    and "first_page tif = Inr page"
    and "find_xmp page = Some xmp_data"
    and "fromstring (utf8_decode_replace xmp_data) = Inl (ParseError msg)"
  shows "extract_editing_metadata open_tiff fromstring path =
           ([''Error parsing XMP metadata: '' @ msg], Some [])"
  using assms by (simp add: extract_editing_metadata_def extract_body_def parse_xmp_def)

lemma line_is_not_the_message:
  "key @ '': '' @ v \<noteq> ''No editing metadata could be extracted.''"
proof
  assume "key @ '': '' @ v = ''No editing metadata could be extracted.''"
  then have "set (key @ '': '' @ v) = set ''No editing metadata could be extracted.''"
    by (rule arg_cong)
  moreover have "CHR '':'' \<in> set (key @ '': '' @ v)" by simp
  ultimately have "CHR '':'' \<in> set ''No editing metadata could be extracted.''" by (simp only:)
  then show False by simp
qed

lemma message_in_report:
  "''No editing metadata could be extracted.'' \<in> set (report repr result) \<longleftrightarrow>
     result = None \<or> result = Some []"
proof (cases result)
  case None
  then show ?thesis by simp
next
  case (Some ps)
  show ?thesis
  proof (cases ps)
    case Nil
    with Some show ?thesis by simp
  next
    case (Cons item items)
    let ?line = "\<lambda>(key, v). key @ '': '' @ str_value repr v"
    have rep: "report repr (Some (item # items)) =
        ''Extracted Editing Metadata:'' # map ?line (item # items)"
      by (simp only: report.simps)
    have "''No editing metadata could be extracted.'' \<notin> set (map ?line (item # items))"
    proof
      assume "''No editing metadata could be extracted.'' \<in> set (map ?line (item # items))"
      then obtain key v where "''No editing metadata could be extracted.'' =
          key @ '': '' @ str_value repr v"
        by (auto simp del: set_simps list.map)
      then show False using line_is_not_the_message [of key "str_value repr v"] by simp
    qed
    moreover have "''No editing metadata could be extracted.'' \<noteq> ''Extracted Editing Metadata:''"
      by simp
    ultimately have "''No editing metadata could be extracted.'' \<notin>
        set (report repr (Some (item # items)))"
      by (simp only: rep set_simps insert_iff) simp
    with Some Cons show ?thesis by simp
  qed
qed

text \<open>
  C6, as stated, fails when the result is a dictionary without keys.  The file below has
  an \<^verbatim>\<open>XMP\<close> tag whose payload does not parse: \<open>extract_editing_metadata\<close> returns the
  empty dictionary, a present result, and the entry point prints that no editing
  metadata could be extracted and no heading.
\<close>

theorem empty_mapping_counterexample:
  "extract_editing_metadata (\<lambda>path. Inr (tiff_with_xmp truncated_payload)) failing_parser
     file_path =
     ([''Error parsing XMP metadata: unclosed token: line 1, column 0''], Some []) \<and>
   main_program (\<lambda>path. Inr (tiff_with_xmp truncated_payload)) failing_parser python_repr =
     [''Error parsing XMP metadata: unclosed token: line 1, column 0'',
      ''No editing metadata could be extracted.'']"
  by (simp add: main_program_def extract_editing_metadata_def extract_body_def find_xmp_def
      tiff_with_xmp_def width_tag_def parse_xmp_def failing_parser_def)

lemma distinct_extract_keys:
  "distinct (map fst ps) \<Longrightarrow> distinct (map fst (extract_keys desc keys ps))"
  by (induction keys arbitrary: ps) (auto simp: distinct_update split: option.splits)

lemma distinct_process_description:
  "distinct (map fst ps) \<Longrightarrow> distinct (map fst (process_description desc ps))"
  by (auto simp: process_description_def extract_tone_curve_def distinct_update
      distinct_extract_keys split: option.splits)

lemma distinct_fold:
  "distinct (map fst ps) \<Longrightarrow> distinct (map fst (fold process_description ds ps))"
  by (induction ds arbitrary: ps) (auto simp: distinct_process_description)

lemma distinct_extract_params: "distinct (map fst (extract_params root))"
  by (simp add: extract_params_def distinct_fold)

lemma distinct_parse_xmp:
  "parse_xmp fromstring xmp_bytes = Inr (out, editing_params) \<Longrightarrow>
     distinct (map fst editing_params)"
  by (auto simp: parse_xmp_def distinct_extract_params split: sum.splits py_exception.splits)

lemma parse_xmp_cases:
  "(\<exists>msg. parse_xmp fromstring xmp_data = Inl (OtherException msg)) \<or>
   (\<exists>msg. parse_xmp fromstring xmp_data = Inr ([''Error parsing XMP metadata: '' @ msg], [])) \<or>
   (\<exists>root. parse_xmp fromstring xmp_data = Inr ([], extract_params root))"
proof (cases "fromstring (utf8_decode_replace xmp_data)")
  case (Inl e)
  then show ?thesis by (cases e) (simp_all add: parse_xmp_def)
next
  case (Inr root)
  then have "parse_xmp fromstring xmp_data = Inr ([], extract_params root)"
    by (simp add: parse_xmp_def)
  then show ?thesis by blast
qed

lemma extract_body_cases:
  "(\<exists>e. extract_body open_tiff fromstring path = ([], Inl e)) \<or>
   extract_body open_tiff fromstring path =
     ([''No XMP metadata found in the file.''], Inr None) \<or>
   (\<exists>msg. extract_body open_tiff fromstring path =
     ([''Error parsing XMP metadata: '' @ msg], Inr (Some []))) \<or>
   (\<exists>root. extract_body open_tiff fromstring path = ([], Inr (Some (extract_params root))))"
proof (cases "open_tiff path")
  case (Inl e)
  then show ?thesis by (simp add: extract_body_def)
next
  case opened: (Inr tif)
  show ?thesis
  proof (cases "first_page tif")
    case (Inl e)
    with opened show ?thesis by (simp add: extract_body_def)
  next
    case page: (Inr page)
    show ?thesis
    proof (cases "find_xmp page")
      case None
      with opened page show ?thesis by (simp add: extract_body_def)
    next
      case (Some xmp_data)
      from parse_xmp_cases [of fromstring xmp_data] opened page Some show ?thesis
        by (auto simp: extract_body_def)
    qed
  qed
qed

lemma extract_editing_metadata_cases:
  assumes "extract_editing_metadata open_tiff fromstring path = (out, result)"
  shows "(out = [] \<or> out = [''No XMP metadata found in the file.''] \<or>
          (\<exists>msg. out = [''Error parsing XMP metadata: '' @ msg]) \<or>
          (\<exists>msg. out = [''Error extracting editing metadata: '' @ msg])) \<and>
         (\<forall>editing_params. result = Some editing_params \<longrightarrow> distinct (map fst editing_params))"
  using extract_body_cases [of open_tiff fromstring path] assms
  by (auto simp: extract_editing_metadata_def distinct_extract_params)

lemma message_not_printed_before:
  assumes "extract_editing_metadata open_tiff fromstring path = (out, result)"
  shows "''No editing metadata could be extracted.'' \<notin> set out"
  using extract_editing_metadata_cases [OF assms] by auto

text \<open>
  C6, amended.  The entry point prints, after what the extraction printed, the heading
  and one \<^verbatim>\<open>Key: Value\<close> line for each key, in the order of insertion, when the result
  is a dictionary with at least one key; no key of the result occurs twice.  Among all
  the lines of a run, the line that no editing metadata could be extracted is there
  exactly when the result is \<^verbatim>\<open>None\<close> or the empty dictionary.
\<close>

theorem entry_point_report:
  assumes "extract_editing_metadata open_tiff fromstring file_path = (out, result)"
  shows "main_program open_tiff fromstring repr =
           out @ (case result of
                    None \<Rightarrow> [''No editing metadata could be extracted.'']
                  | Some editing_metadata \<Rightarrow>
                      if editing_metadata = []
                      then [''No editing metadata could be extracted.'']
                      else ''Extracted Editing Metadata:'' #
                           map (\<lambda>(key, v). key @ '': '' @ str_value repr v) editing_metadata) \<and>
         (''No editing metadata could be extracted.''
            \<in> set (main_program open_tiff fromstring repr) \<longleftrightarrow>
            result = None \<or> result = Some []) \<and>
         (\<forall>editing_metadata. result = Some editing_metadata \<longrightarrow>
            distinct (map fst editing_metadata))"
proof -
  have rep: "report repr result =
      (case result of
         None \<Rightarrow> [''No editing metadata could be extracted.'']
       | Some editing_metadata \<Rightarrow>
           if editing_metadata = []
           then [''No editing metadata could be extracted.'']
           else ''Extracted Editing Metadata:'' #
                map (\<lambda>(key, v). key @ '': '' @ str_value repr v) editing_metadata)"
    by (cases "(repr, result)" rule: report.cases) simp_all
  have main: "main_program open_tiff fromstring repr = out @ report repr result"
    using assms by (simp add: main_program_def)
  have "''No editing metadata could be extracted.'' \<in> set (out @ report repr result) \<longleftrightarrow>
      result = None \<or> result = Some []"
    using message_not_printed_before [OF assms] message_in_report [of repr result]
    by (simp only: set_append Un_iff) simp
  then have said: "''No editing metadata could be extracted.''
      \<in> set (main_program open_tiff fromstring repr) \<longleftrightarrow> result = None \<or> result = Some []"
    by (simp only: main)
  have keys: "\<forall>editing_metadata. result = Some editing_metadata \<longrightarrow>
      distinct (map fst editing_metadata)"
    using extract_editing_metadata_cases [OF assms] by blast
  from main rep said keys show ?thesis by (simp only:) 
qed

theorem entry_point_report_witness:
  "extract_editing_metadata (\<lambda>path. Inr (tiff_with_xmp [0x3C])) (\<lambda>text. Inr exposure_curve_doc)
     file_path =
     ([], Some [(''Exposure'', Scalar ''0.50''),
                (''ToneCurve'', Sequence [''0, 0'', ''32, 22'', ''255, 255''])]) \<and>
   main_program (\<lambda>path. Inr (tiff_with_xmp [0x3C])) (\<lambda>text. Inr exposure_curve_doc) python_repr =
     [''Extracted Editing Metadata:'',
      ''Exposure: 0.50'',
      ''ToneCurve: ['0, 0', '32, 22', '255, 255']'']"
proof -
  have run: "extract_editing_metadata (\<lambda>path. Inr (tiff_with_xmp [0x3C]))
      (\<lambda>text. Inr exposure_curve_doc) file_path =
     ([], Some [(''Exposure'', Scalar ''0.50''),
                (''ToneCurve'', Sequence [''0, 0'', ''32, 22'', ''255, 255''])])"
    by (simp add: extract_editing_metadata_def extract_body_def find_xmp_def
        tiff_with_xmp_def width_tag_def parse_xmp_def exposure_curve_doc_def doc_defs run_defs)
  from run entry_point_report [OF run, of python_repr] show ?thesis
    by (simp add: python_repr_def)
qed

lemma find_first_match:
  assumes "\<forall>b \<in> set before. \<not> P b" and "P c"
  shows "List.find P (before @ c # after) = Some c"
  using assms by (induction before) simp_all

lemma find_no_match:
  assumes "\<forall>c \<in> set xs. \<not> P c"
  shows "List.find P xs = None"
  using assms by (induction xs) simp_all

text \<open>
  C7, as stated, fails on an element without text.  The only description of the document
  below has the child \<^verbatim>\<open>crs:Contrast\<close> with no text; \<^verbatim>\<open>findtext\<close> gives the empty
  string for it, which is not \<^verbatim>\<open>None\<close>, and the program stores it: the key
  \<^verbatim>\<open>Contrast\<close> is written, with the empty string.
\<close>

theorem empty_element_counterexample:
  "find_child (crs ''Contrast'') (description [Element (crs ''Contrast'') None []]) =
     Some (Element (crs ''Contrast'') None []) \<and>
   elem_text (Element (crs ''Contrast'') None []) = None \<and>
   descriptions empty_contrast_doc = [description [Element (crs ''Contrast'') None []]] \<and>
   parse_xmp (\<lambda>text. Inr empty_contrast_doc) [0x3C] = Inr ([], [(''Contrast'', Scalar '''')])"
  by (simp add: parse_xmp_def empty_contrast_doc_def doc_defs run_defs)

text \<open>
  C7, amended.  For an allow-listed name and one \<^verbatim>\<open>rdf:Description\<close>, only the first
  child named \<^verbatim>\<open>crs:\<close>name counts.  When there is no such child nothing is written for
  the key: the dictionary holds for it what it held before.  When there is one, the key
  is written, with the text of that first child, or with the empty string when that
  child has no text.
\<close>

theorem first_child_decides_write:
  assumes key: "key \<in> set keys_to_extract"
  shows "((\<forall>c \<in> set (children desc). tag c \<noteq> crs key) \<longrightarrow>
            map_of (process_description desc editing_params) key = map_of editing_params key) \<and>
         (children desc = before @ c # after \<and> (\<forall>b \<in> set before. tag b \<noteq> crs key) \<and>
          tag c = crs key \<longrightarrow>
            map_of (process_description desc editing_params) key = Some (Scalar (text_or_empty c)))"
proof (intro conjI impI)
  assume "\<forall>c \<in> set (children desc). tag c \<noteq> crs key"
  then have "find_child (crs key) desc = None"
    unfolding find_child_def by (intro find_no_match) simp
  then show "map_of (process_description desc editing_params) key = map_of editing_params key"
    by (simp add: map_of_process_key [OF key] findtext_text_or_empty)
next
  assume "children desc = before @ c # after \<and> (\<forall>b \<in> set before. tag b \<noteq> crs key) \<and>
          tag c = crs key"
  then have "find_child (crs key) desc = Some c"
    unfolding find_child_def by (simp add: find_first_match)
  then show "map_of (process_description desc editing_params) key = Some (Scalar (text_or_empty c))"
    by (simp add: map_of_process_key [OF key] findtext_text_or_empty)
qed

theorem first_child_decides_write_witness:
  "''Contrast'' \<in> set keys_to_extract \<and>
   map_of (process_description
       (description [Element (crs ''Exposure'') (Some ''1'') [],
                     Element (crs ''Contrast'') None [],
                     Element (crs ''Contrast'') (Some ''7'') []])
       [(''Contrast'', Scalar ''10'')]) ''Contrast'' = Some (Scalar '''') \<and>
   map_of (process_description
       (description [Element (crs ''Exposure'') (Some ''1'') []])
       [(''Contrast'', Scalar ''10'')]) ''Contrast'' = Some (Scalar ''10'')"
proof -
  have key: "''Contrast'' \<in> set keys_to_extract"
    by (simp add: keys_to_extract_def)
  have differ: "crs ''Exposure'' \<noteq> crs ''Contrast''"
    by (simp add: crs_def)
  note written = first_child_decides_write [OF key,
      of "description [Element (crs ''Exposure'') (Some ''1'') [],
                       Element (crs ''Contrast'') None [],
                       Element (crs ''Contrast'') (Some ''7'') []]"
         "[(''Contrast'', Scalar ''10'')]"
         "[Element (crs ''Exposure'') (Some ''1'') []]"
         "Element (crs ''Contrast'') None []"
         "[Element (crs ''Contrast'') (Some ''7'') []]"]
  note kept = first_child_decides_write [OF key,
      of "description [Element (crs ''Exposure'') (Some ''1'') []]"
         "[(''Contrast'', Scalar ''10'')]"]
  show ?thesis
    using key written kept differ
    by (simp add: description_def text_or_empty_def)
qed

lemma descriptions_at_depth:
  assumes "tag d = rdf ''Description''" and "d \<in> set (at_depth (Suc n) root)"
  shows "d \<in> set (descriptions root)"
proof -
  from assms(2) have "d \<in> set (descendants root)"
    unfolding descendants_at_depth by blast
  with assms(1) show ?thesis
    by (simp add: descriptions_def findall_descendant_def)
qed

text \<open>
  C8.  Every \<^verbatim>\<open>rdf:Description\<close> of the document, at any depth and the root included,
  is to be processed; the comment above the loop says that all \<^verbatim>\<open>rdf:Description\<close>
  elements are iterated.  The code does process those below the root
  (\<open>descriptions_at_depth\<close>), and it misses the root.  The document below is one
  \<^verbatim>\<open>rdf:Description\<close>, at depth \<open>0\<close> of itself, with the child \<^verbatim>\<open>crs:Contrast\<close> of text
  10: the path \<^verbatim>\<open>.//rdf:Description\<close> finds no description in it and \<open>parse_xmp\<close>
  returns the empty dictionary, where processing the root gives \<^verbatim>\<open>Contrast\<close> as 10.
\<close>

theorem root_description_not_processed:
  "tag root_description_doc = rdf ''Description'' \<and>
   root_description_doc \<in> set (at_depth 0 root_description_doc) \<and>
   findtext (crs ''Contrast'') root_description_doc = Some ''10'' \<and>
   process_description root_description_doc [] = [(''Contrast'', Scalar ''10'')] \<and>
   descriptions root_description_doc = [] \<and>
   parse_xmp (\<lambda>text. Inr root_description_doc) [0x3C] = Inr ([], [])"
  by (simp add: parse_xmp_def root_description_doc_def doc_defs run_defs)

text \<open>
  C9.  An exception raised by opening the file, or by reading its first page, leaves the
  body of the \<^verbatim>\<open>try\<close> as an exception and is caught: \<open>extract_editing_metadata\<close> prints
  the diagnostic with the exception's text and returns \<^verbatim>\<open>None\<close>.  Exceptions are the
  subclasses of \<^verbatim>\<open>Exception\<close>, which is what the handler names.
\<close>

theorem container_exception_gives_none:
  assumes "open_tiff path = Inl e \<or> (\<exists>tif. open_tiff path = Inr tif \<and> first_page tif = Inl e)"
  shows "extract_body open_tiff fromstring path = ([], Inl e) \<and>
         extract_editing_metadata open_tiff fromstring path =
           ([''Error extracting editing metadata: '' @ exception_str e], None)"
  using assms by (auto simp: extract_editing_metadata_def extract_body_def)

theorem container_exception_gives_none_witness:
  "extract_editing_metadata (\<lambda>path. Inl (OtherException ''not a TIFF file'')) failing_parser
     file_path = ([''Error extracting editing metadata: not a TIFF file''], None) \<and>
   extract_editing_metadata (\<lambda>path. Inr (TiffFile (Inl (OtherException ''index out of range''))))
     failing_parser file_path = ([''Error extracting editing metadata: index out of range''], None)"
  using container_exception_gives_none
      [of "\<lambda>path. Inl (OtherException ''not a TIFF file'')" file_path _ failing_parser]
    container_exception_gives_none
      [of "\<lambda>path. Inr (TiffFile (Inl (OtherException ''index out of range'')))" file_path
        "OtherException ''index out of range''" failing_parser]
  by simp

lemma strict_None_iff: "strict_code_points es = None \<longleftrightarrow> Malformed \<in> set es"
  by (induction es rule: strict_code_points.induct) auto

lemma strict_Some_replace: "strict_code_points es = Some t \<Longrightarrow> map replace_malformed es = t"
  by (induction es arbitrary: t rule: strict_code_points.induct) auto

text \<open>
  C10.  Decoding is a total function of the payload, and what it gives is a text: every
  code point of it is a Unicode scalar value.  Where the strict codec would raise, the
  text that \<open>parse_xmp\<close> parses contains U+FFFD; where it would not, the text is the
  strict codec's.  An exception that leaves \<open>parse_xmp\<close> is one the XML parser raised on
  the decoded text, never one of decoding; and whenever the parser returns a tree or
  raises \<^verbatim>\<open>ParseError\<close>, \<open>parse_xmp\<close> returns a dictionary.  The witness is a payload with
  the byte FF, which no UTF-8 sequence contains.
\<close>

theorem decoding_never_fails:
  "(\<forall>c \<in> set (utf8_decode_replace xmp_bytes). scalar_value c) \<and>
   (utf8_decode_strict xmp_bytes = None \<longrightarrow>
      replacement_character \<in> set (utf8_decode_replace xmp_bytes)) \<and>
   (\<forall>t. utf8_decode_strict xmp_bytes = Some t \<longrightarrow> utf8_decode_replace xmp_bytes = t) \<and>
   (\<forall>e. parse_xmp fromstring xmp_bytes = Inl e \<longrightarrow>
      fromstring (utf8_decode_replace xmp_bytes) = Inl e) \<and>
   ((\<exists>root. fromstring (utf8_decode_replace xmp_bytes) = Inr root) \<or>
    (\<exists>msg. fromstring (utf8_decode_replace xmp_bytes) = Inl (ParseError msg)) \<longrightarrow>
      (\<exists>out editing_params. parse_xmp fromstring xmp_bytes = Inr (out, editing_params)))"
proof (intro conjI allI impI)
  show "\<forall>c \<in> set (utf8_decode_replace xmp_bytes). scalar_value c"
    by (rule utf8_decode_replace_scalar)
next
  assume "utf8_decode_strict xmp_bytes = None"
  then have "Malformed \<in> set (utf8_events Start xmp_bytes)"
    by (simp add: utf8_decode_strict_def strict_None_iff)
  then have "replace_malformed Malformed \<in> set (utf8_decode_replace xmp_bytes)"
    unfolding utf8_decode_replace_def set_map by (rule imageI)
  then show "replacement_character \<in> set (utf8_decode_replace xmp_bytes)" by simp
next
  fix t assume "utf8_decode_strict xmp_bytes = Some t"
  then show "utf8_decode_replace xmp_bytes = t"
    by (simp add: utf8_decode_strict_def utf8_decode_replace_def strict_Some_replace)
next
  fix e assume "parse_xmp fromstring xmp_bytes = Inl e"
  then show "fromstring (utf8_decode_replace xmp_bytes) = Inl e"
    by (auto simp: parse_xmp_def split: sum.splits py_exception.splits)
next
  assume "(\<exists>root. fromstring (utf8_decode_replace xmp_bytes) = Inr root) \<or>
    (\<exists>msg. fromstring (utf8_decode_replace xmp_bytes) = Inl (ParseError msg))"
  then show "\<exists>out editing_params. parse_xmp fromstring xmp_bytes = Inr (out, editing_params)"
    by (auto simp: parse_xmp_def)
qed

theorem decoding_never_fails_witness:
  "utf8_decode_strict [0x3C, 0x61, 0xFF, 0x2F, 0x3E] = None \<and>
   utf8_decode_replace [0x3C, 0x61, 0xFF, 0x2F, 0x3E] = [0x3C, 0x61, 0xFFFD, 0x2F, 0x3E] \<and>
   list_all scalar_value (utf8_decode_replace [0x3C, 0x61, 0xFF, 0x2F, 0x3E]) \<and>
   replacement_character \<in> set (utf8_decode_replace [0x3C, 0x61, 0xFF, 0x2F, 0x3E]) \<and>
   (\<exists>out editing_params.
      parse_xmp failing_parser [0x3C, 0x61, 0xFF, 0x2F, 0x3E] = Inr (out, editing_params))"
proof -
  have strict: "utf8_decode_strict [0x3C, 0x61, 0xFF, 0x2F, 0x3E] = None"
    by (simp add: utf8_decode_strict_def lead_def)
  have replaced: "utf8_decode_replace [0x3C, 0x61, 0xFF, 0x2F, 0x3E] =
      [0x3C, 0x61, 0xFFFD, 0x2F, 0x3E]"
    by (simp add: utf8_decode_replace_def lead_def replacement_character_def)
  have raised: "\<exists>msg. failing_parser (utf8_decode_replace [0x3C, 0x61, 0xFF, 0x2F, 0x3E]) =
      Inl (ParseError msg)"
    by (simp add: failing_parser_def)
  note claim = decoding_never_fails [of "[0x3C, 0x61, 0xFF, 0x2F, 0x3E]" failing_parser]
  from claim have "list_all scalar_value (utf8_decode_replace [0x3C, 0x61, 0xFF, 0x2F, 0x3E])"
    unfolding list_all_iff by (rule conjunct1)
  with strict replaced raised claim show ?thesis by blast
qed

end
